theory Spec2Isabelle
  imports Main
begin

section \<open>JavaScript strings and arrays\<close>

text \<open>
  A JavaScript string is modelled as a \<^typ>\<open>string\<close>, one \<^typ>\<open>char\<close> per code unit
  (code units \<open>0x00\<close> to \<open>0xFF\<close>). The component only splits at the space character,
  concatenates, trims and tests for emptiness, so nothing depends on the width of a
  code unit.
\<close>

text \<open>
  \<^verbatim>\<open>s.split(sep)\<close> for a separator of one code unit: the pieces of \<open>s\<close> between the
  occurrences of the separator, empty pieces included. The first argument is the piece
  being read. \<^verbatim>\<open>"".split(" ")\<close> is \<^verbatim>\<open>[""]\<close>.
\<close>

fun split_from :: "char \<Rightarrow> string \<Rightarrow> string \<Rightarrow> string list" where
  "split_from sep w [] = [w]"
| "split_from sep w (c # cs) =
     (if c = sep then w # split_from sep [] cs else split_from sep (w @ [c]) cs)"

definition js_split :: "string \<Rightarrow> char \<Rightarrow> string list" where
  "js_split s sep = split_from sep [] s"

text \<open>\<^verbatim>\<open>xs.join(sep)\<close>: the elements with the separator between neighbours.\<close>

fun js_join :: "string list \<Rightarrow> string \<Rightarrow> string" where
  "js_join [] sep = []"
| "js_join [w] sep = w"
| "js_join (w # ws) sep = w @ sep @ js_join ws sep"

text \<open>\<^verbatim>\<open>xs.slice(b, e)\<close> for indices \<open>0 \<le> b\<close>, \<open>0 \<le> e\<close>: the elements at \<open>b \<le> i < min e (length xs)\<close>.\<close>

definition js_slice :: "'a list \<Rightarrow> nat \<Rightarrow> nat \<Rightarrow> 'a list" where
  "js_slice xs b e = drop b (take e xs)"

text \<open>
  The white space of ECMAScript among the code units below \<open>0x100\<close>: TAB, LF, VT, FF, CR,
  SP and NBSP.
\<close>

definition is_js_whitespace :: "char \<Rightarrow> bool" where
  "is_js_whitespace c \<longleftrightarrow>
     c \<in> set [CHR 0x09, CHR 0x0A, CHR 0x0B, CHR 0x0C, CHR 0x0D, CHR 0x20, CHR 0xA0]"

text \<open>\<^verbatim>\<open>s.trim()\<close>: white space removed at both ends.\<close>

definition js_trim :: "string \<Rightarrow> string" where
  "js_trim s = rev (dropWhile is_js_whitespace (rev (dropWhile is_js_whitespace s)))"

text \<open>A string used as a condition is true when it is not empty.\<close>

definition truthy :: "string \<Rightarrow> bool" where
  "truthy s \<longleftrightarrow> s \<noteq> []"

section \<open>Chunking (\<^verbatim>\<open>chunkAndSpeak\<close>, first part)\<close>

definition chunkSize :: nat where
  "chunkSize = 25"

text \<open>
  \<^verbatim>\<open>for (let i = 0; i < words.length; i += chunkSize)
    chunks.push(words.slice(i, i + chunkSize).join(" "));\<close>
  with the loop variable and the array being built as arguments.
\<close>

function chunk_loop :: "string list \<Rightarrow> nat \<Rightarrow> string list \<Rightarrow> string list" where
  "chunk_loop words i chunks =
     (if i < length words
      then chunk_loop words (i + chunkSize)
             (chunks @ [js_join (js_slice words i (i + chunkSize)) '' ''])
      else chunks)"
  by pat_completeness auto
termination
  by (relation "measure (\<lambda>(words, i, chunks). length words - i)") (auto simp: chunkSize_def)

declare chunk_loop.simps [simp del]

text \<open>The chunk sequence that \<^verbatim>\<open>chunkAndSpeak(text)\<close> computes before it speaks.\<close>

definition compute_chunks :: "string \<Rightarrow> string list" where
  "compute_chunks txt = chunk_loop (js_split txt CHR '' '') 0 []"

text \<open>
  For comparison only, the words of a string as the specification describes them
  (``splits text on whitespace into words''): the maximal runs of characters that are
  not white space.
\<close>

fun whitespace_words_from :: "string \<Rightarrow> string \<Rightarrow> string list" where
  "whitespace_words_from w [] = (if w = [] then [] else [w])"
| "whitespace_words_from w (c # cs) =
     (if is_js_whitespace c
      then (if w = [] then [] else [w]) @ whitespace_words_from [] cs
      else whitespace_words_from (w @ [c]) cs)"

definition whitespace_words :: "string \<Rightarrow> string list" where
  "whitespace_words s = whitespace_words_from [] s"

section \<open>The text-generation module (\<^verbatim>\<open>googleGemini.ts\<close>)\<close>

text \<open>An \<^verbatim>\<open>Error\<close> object with its message; a thrown value is an \<^verbatim>\<open>Error\<close> or something else.\<close>

datatype js_error = Error string

datatype thrown = ThrownError js_error | ThrownOther

record GenerativeModel =
  apiKey :: string
  modelName :: string

text \<open>
  What the module does when it is loaded. The argument is
  \<^verbatim>\<open>process.env.NEXT_PUBLIC_GEMINI_API_KEY\<close> (\<open>None\<close> for \<^verbatim>\<open>undefined\<close>); \<^verbatim>\<open>!API_KEY\<close> holds
  for \<^verbatim>\<open>undefined\<close> and for the empty string. The result is the thrown error or the
  module's constant \<^verbatim>\<open>model\<close>.
\<close>

definition module_init :: "string option \<Rightarrow> js_error + GenerativeModel" where
  "module_init API_KEY =
     (case API_KEY of
        None \<Rightarrow> Inl (Error ''Missing Gemini API Key'')
      | Some k \<Rightarrow>
          if \<not> truthy k then Inl (Error ''Missing Gemini API Key'')
          else Inr \<lparr>apiKey = k, modelName = ''gemini-1.5-flash''\<rparr>)"

definition brevity_instruction :: string where
  "brevity_instruction =
     ''you can say in it 2 to 3 sentences only yu don thave to generate a huge response for this.''"

section \<open>Recognition results\<close>

text \<open>
  The interfaces declared in \<^verbatim>\<open>SpeechToText.tsx\<close>. The index signature of
  \<^verbatim>\<open>SpeechRecognitionResult\<close> makes \<^verbatim>\<open>result[0]\<close> an alternative for every result; the
  handler reads only that one, which the model keeps as a field. The confidence score is
  a floating-point number that the component never reads, and is left out.
\<close>

record SpeechRecognitionAlternative =
  transcript :: string

record SpeechRecognitionResult =
  isFinal :: bool
  first_alternative :: SpeechRecognitionAlternative

record SpeechRecognitionEvent =
  resultIndex :: nat
  results :: "SpeechRecognitionResult list"

section \<open>State\<close>

type_synonym voice = string

text \<open>
  The closure \<^verbatim>\<open>() => speakChunk(chunkIndex, voices)\<close> of one call of \<^verbatim>\<open>chunkAndSpeak\<close>:
  the chunks of that call, the index and the voices.
\<close>

type_synonym continuation = "string list \<times> nat \<times> voice list"

text \<open>
  An utterance: its text, its voice (\<^verbatim>\<open>voices[0]\<close>, absent when the array is empty) and the
  continuation that its \<^verbatim>\<open>onend\<close> handler schedules. The rate is a floating-point
  constant and is left out.
\<close>

record SpeechSynthesisUtterance =
  utterance_text :: string
  utterance_voice :: "voice option"
  onend_next :: continuation

datatype console_entry = LogString string | LogError js_error

text \<open>
  The six \<^verbatim>\<open>useState\<close> cells (\<open>text_state\<close> is the cell \<^verbatim>\<open>text\<close>, the finalized
  transcript) and the ref of the component, the three cells of the
  \<^verbatim>\<open>useGeminiAPI\<close> hook, what the user and the console have been shown, and the state of
  the platform that the component reads and writes:
  \<^item> recognition: whether the window offers the capability, and how often \<^verbatim>\<open>start()\<close>
    was called;
  \<^item> text generation: the requests sent so far, each with the model it was sent to;
  \<^item> synthesis: the voice list, the queue of utterances (its head is the one being
    spoken, and \<^verbatim>\<open>speechSynthesis.speaking\<close> holds when the queue is not empty), every
    text ever passed to \<^verbatim>\<open>speechSynthesis.speak\<close>, the pending \<^verbatim>\<open>setTimeout\<close> callbacks, and
    the chunks held by the \<^verbatim>\<open>onvoiceschanged\<close> handler when one is installed.
\<close>

record state =
  isListening :: bool
  text_state :: string
  interimResult :: string
  isResponding :: bool
  response :: string
  isSpeaking :: bool
  recognitionRef :: bool
  hook_response :: "string option"
  hook_isLoading :: bool
  hook_error :: "js_error option"
  notifications :: "string list"
  console :: "console_entry list"
  recognition_supported :: bool
  start_calls :: nat
  sent :: "(GenerativeModel \<times> string) list"
  voices :: "voice list"
  queue :: "SpeechSynthesisUtterance list"
  submitted :: "string list"
  timers :: "continuation list"
  onvoiceschanged :: "string list option"

text \<open>The state of a freshly mounted component on a platform with the given capabilities.\<close>

definition initial_state :: "bool \<Rightarrow> voice list \<Rightarrow> state" where
  "initial_state supported vs =
     \<lparr>isListening = False, text_state = [], interimResult = [], isResponding = False,
      response = [], isSpeaking = False, recognitionRef = supported,
      hook_response = None, hook_isLoading = False, hook_error = None,
      notifications = [],
      console = (if supported then []
                 else [LogString ''Speech recognition not supported in this browser'']),
      recognition_supported = supported, start_calls = 0, sent = [],
      voices = vs, queue = [], submitted = [], timers = [], onvoiceschanged = None\<rparr>"

section \<open>Recognition coordinator\<close>

definition initializeSpeechRecognition :: "state \<Rightarrow> state" where
  "initializeSpeechRecognition s =
     (if recognition_supported s then s\<lparr>recognitionRef := True\<rparr>
      else s\<lparr>console := console s @
                  [LogString ''Speech recognition not supported in this browser'']\<rparr>)"

definition startListening :: "state \<Rightarrow> state" where
  "startListening s =
     (let s1 = s\<lparr>text_state := [], interimResult := []\<rparr>;
          s2 = (if \<not> recognitionRef s1 then initializeSpeechRecognition s1 else s1)
      in if recognitionRef s2 then s2\<lparr>start_calls := Suc (start_calls s2)\<rparr>
         else s2\<lparr>notifications := notifications s2 @
                     [''Failed to start speech recognition. Please try again.'']\<rparr>)"

definition onstart :: "state \<Rightarrow> state" where
  "onstart s = s\<lparr>isListening := True\<rparr>"

definition onerror :: "state \<Rightarrow> state" where
  "onerror s = s\<lparr>isListening := False\<rparr>"

definition onend :: "state \<Rightarrow> state" where
  "onend s = s\<lparr>isListening := False\<rparr>"

text \<open>The results that an update delivers: those from \<^verbatim>\<open>event.resultIndex\<close> on.\<close>

definition delivered :: "SpeechRecognitionEvent \<Rightarrow> SpeechRecognitionResult list" where
  "delivered event = drop (resultIndex event) (results event)"

text \<open>
  The loop of \<^verbatim>\<open>onresult\<close>, from \<^verbatim>\<open>event.resultIndex\<close> to the end of \<^verbatim>\<open>event.results\<close>; the
  pair is \<^verbatim>\<open>(interimTranscript, finalTranscript)\<close>.
\<close>

function onresult_loop ::
  "SpeechRecognitionEvent \<Rightarrow> nat \<Rightarrow> string \<times> string \<Rightarrow> string \<times> string" where
  "onresult_loop event i (interimTranscript, finalTranscript) =
     (if i < length (results event)
      then (let result = results event ! i;
                transcript = transcript (first_alternative result)
            in if isFinal result
               then onresult_loop event (i + 1)
                      (interimTranscript, finalTranscript @ transcript @ '' '')
               else onresult_loop event (i + 1)
                      (interimTranscript @ transcript, finalTranscript))
      else (interimTranscript, finalTranscript))"
  by pat_completeness auto
termination
  by (relation "measure (\<lambda>(event, i, acc). length (results event) - i)") auto

declare onresult_loop.simps [simp del]

definition onresult :: "SpeechRecognitionEvent \<Rightarrow> state \<Rightarrow> state" where
  "onresult event s =
     (case onresult_loop event (resultIndex event) ([], []) of
        (interimTranscript, finalTranscript) \<Rightarrow>
          (if truthy finalTranscript
           then s\<lparr>text_state := text_state s @ finalTranscript\<rparr>
           else s)
          \<lparr>interimResult := interimTranscript\<rparr>)"

text \<open>
  One recognition session: \<^verbatim>\<open>startListening\<close>, the start notification, the updates in
  delivery order, the end notification.
\<close>

definition recognition_session :: "SpeechRecognitionEvent list \<Rightarrow> state \<Rightarrow> state" where
  "recognition_session events s =
     onend (foldl (\<lambda>s event. onresult event s) (onstart (startListening s)) events)"

section \<open>Playback segmenter\<close>

text \<open>
  The model follows \<^verbatim>\<open>SpeechToText.tsx\<close>. The second copy of the component is the same in
  every function modelled here, except that its utterances call \<^verbatim>\<open>speakChunk\<close> for the
  next chunk from \<^verbatim>\<open>onend\<close> directly, without a timer.
\<close>

text \<open>
  \<^verbatim>\<open>speakChunk(chunkIndex, voices)\<close> inside a call of \<^verbatim>\<open>chunkAndSpeak\<close> that computed
  \<open>chunks\<close>. \<^verbatim>\<open>speechSynthesis.speak\<close> appends the utterance to the queue of the platform.
\<close>

definition speakChunk :: "string list \<Rightarrow> nat \<Rightarrow> voice list \<Rightarrow> state \<Rightarrow> state" where
  "speakChunk chunks chunkIndex vs s =
     (if chunkIndex \<ge> length chunks then s\<lparr>isSpeaking := False\<rparr>
      else (let utterance =
                  \<lparr>utterance_text = chunks ! chunkIndex,
                   utterance_voice = (case vs of [] \<Rightarrow> None | v # _ \<Rightarrow> Some v),
                   onend_next = (chunks, chunkIndex + 1, vs)\<rparr>
            in s\<lparr>queue := queue s @ [utterance],
                 submitted := submitted s @ [utterance_text utterance]\<rparr>))"

definition chunkAndSpeak :: "string \<Rightarrow> state \<Rightarrow> state" where
  "chunkAndSpeak txt s =
     (let chunks = compute_chunks txt; vs = voices s
      in if length vs > 0 then (speakChunk chunks 0 vs s)\<lparr>isSpeaking := True\<rparr>
         else s\<lparr>onvoiceschanged := Some chunks\<rparr>)"

text \<open>
  The platform's \<^verbatim>\<open>voiceschanged\<close> notification, with the new voice list: the handler, when
  one is installed, reads the list and starts at chunk 0.
\<close>

definition voiceschanged :: "voice list \<Rightarrow> state \<Rightarrow> state" where
  "voiceschanged loadedVoices s =
     (let s1 = s\<lparr>voices := loadedVoices\<rparr>
      in case onvoiceschanged s1 of
           None \<Rightarrow> s1
         | Some chunks \<Rightarrow> (speakChunk chunks 0 (voices s1) s1)\<lparr>isSpeaking := True\<rparr>)"

text \<open>
  The platform finishes the utterance at the head of the queue: the utterance leaves the
  queue and its \<^verbatim>\<open>onend\<close> handler runs, which sets a timer for the next chunk.
\<close>

definition utterance_end :: "state \<Rightarrow> state" where
  "utterance_end s =
     (case queue s of
        [] \<Rightarrow> s
      | u # us \<Rightarrow> s\<lparr>queue := us, timers := timers s @ [onend_next u]\<rparr>)"

text \<open>The oldest pending timer fires and its callback runs.\<close>

definition timer_fires :: "state \<Rightarrow> state" where
  "timer_fires s =
     (case timers s of
        [] \<Rightarrow> s
      | (chunks, chunkIndex, vs) # ts \<Rightarrow> speakChunk chunks chunkIndex vs (s\<lparr>timers := ts\<rparr>))"

text \<open>
  The platform's \<^verbatim>\<open>speechSynthesis.cancel()\<close> removes every utterance from the queue. What
  the removed utterances are told depends on the platform: the Web Speech API prescribes
  the error notification (\<^verbatim>\<open>interrupted\<close> or \<^verbatim>\<open>canceled\<close>), for which the component installs no
  handler, but an engine may deliver the end notification instead. The flag says whether
  the platform delivers the end notification to the utterances it removes; if so, their
  \<^verbatim>\<open>onend\<close> handlers run and each sets its timer.
\<close>

definition cancel :: "bool \<Rightarrow> state \<Rightarrow> state" where
  "cancel end_on_cancel s =
     (if end_on_cancel
      then s\<lparr>queue := [], timers := timers s @ map onend_next (queue s)\<rparr>
      else s\<lparr>queue := []\<rparr>)"

text \<open>\<^verbatim>\<open>stopSpeaking\<close>, on a platform with the given behaviour of \<^verbatim>\<open>cancel()\<close>.\<close>

definition stopSpeaking :: "bool \<Rightarrow> state \<Rightarrow> state" where
  "stopSpeaking end_on_cancel s =
     (if queue s \<noteq> [] then (cancel end_on_cancel s)\<lparr>isSpeaking := False\<rparr> else s)"

text \<open>
  The notifications of the platform that reach the playback code: the end of the
  utterance being spoken, a timer firing, and a change of the voice list. The first two
  are the ones by which a playback advances.
\<close>

datatype playback_event = UtteranceEnd | TimerFires | VoicesChanged "voice list"

fun playback_step :: "playback_event \<Rightarrow> state \<Rightarrow> state" where
  "playback_step UtteranceEnd s = utterance_end s"
| "playback_step TimerFires s = timer_fires s"
| "playback_step (VoicesChanged loadedVoices) s = voiceschanged loadedVoices s"


definition playback_run :: "playback_event list \<Rightarrow> state \<Rightarrow> state" where
  "playback_run events s = foldl (\<lambda>s e. playback_step e s) s events"

text \<open>
  The start of a playback: a call of \<^verbatim>\<open>chunkAndSpeak\<close>, followed, when the voice list was
  empty at the call, by the \<^verbatim>\<open>voiceschanged\<close> notification that the call waits for.
\<close>

definition start_playback :: "string \<Rightarrow> voice list \<Rightarrow> state \<Rightarrow> state" where
  "start_playback txt loadedVoices s =
     (if voices s \<noteq> [] then chunkAndSpeak txt s
      else voiceschanged loadedVoices (chunkAndSpeak txt s))"


section \<open>Response generator\<close>

text \<open>
  \<^verbatim>\<open>generateContent\<close> of the hook, for the module's \<open>model\<close>, in two parts: up to the request,
  and from the answer on. The answer is the generated text, or the value thrown by the
  request or by reading the text of the answer.
\<close>

definition generateContent_request :: "GenerativeModel \<Rightarrow> string \<Rightarrow> state \<Rightarrow> state" where
  "generateContent_request model prompt s =
     s\<lparr>hook_isLoading := True, hook_error := None, hook_response := None,
       sent := sent s @ [(model, prompt @ brevity_instruction)]\<rparr>"

definition generateContent_answer :: "thrown + string \<Rightarrow> state \<Rightarrow> (js_error + string) \<times> state" where
  "generateContent_answer answer s =
     (case answer of
        Inr generatedText \<Rightarrow>
          (Inr generatedText,
           s\<lparr>hook_response := Some generatedText, hook_isLoading := False\<rparr>)
      | Inl err \<Rightarrow>
          (let error = (case err of ThrownError e \<Rightarrow> e
                        | ThrownOther \<Rightarrow> Error ''An unknown error occurred'')
           in (Inl error, s\<lparr>hook_error := Some error, hook_isLoading := False\<rparr>)))"

definition generateContent ::
  "GenerativeModel \<Rightarrow> string \<Rightarrow> thrown + string \<Rightarrow> state \<Rightarrow> (js_error + string) \<times> state" where
  "generateContent model prompt answer s =
     generateContent_answer answer (generateContent_request model prompt s)"

text \<open>\<^verbatim>\<open>generateAIResponse\<close>: what follows the \<^verbatim>\<open>await\<close>, and the whole function.\<close>

definition generateAIResponse_answer :: "thrown + string \<Rightarrow> state \<Rightarrow> state" where
  "generateAIResponse_answer answer s =
     (case generateContent_answer answer s of
        (Inr result, s1) \<Rightarrow>
          (chunkAndSpeak result (s1\<lparr>response := result\<rparr>))\<lparr>isResponding := False\<rparr>
      | (Inl error, s1) \<Rightarrow>
          s1\<lparr>console := console s1 @ [LogError error],
             notifications := notifications s1 @
               [''Failed to generate response. Please try again.''],
             isResponding := False\<rparr>)"

definition generateAIResponse :: "GenerativeModel \<Rightarrow> thrown + string \<Rightarrow> state \<Rightarrow> state" where
  "generateAIResponse model answer s =
     (if truthy (js_trim (text_state s))
      then generateAIResponse_answer answer
             (generateContent_request model (text_state s) (s\<lparr>isResponding := True\<rparr>))
      else s)"

text \<open>
  The body of the effect that runs when \<open>text\<close> or \<open>isListening\<close> has changed; \<open>answer\<close> is
  what the capability will answer if a request is made.
\<close>

definition generation_effect :: "GenerativeModel \<Rightarrow> thrown + string \<Rightarrow> state \<Rightarrow> state" where
  "generation_effect model answer s =
     (if \<not> isListening s \<and> truthy (js_trim (text_state s))
      then generateAIResponse model answer s
      else s)"

section \<open>Splitting and joining\<close>

lemma split_from_ne: "split_from sep w s \<noteq> []"
  by (induction s arbitrary: w) auto

lemma js_join_Cons: "ws \<noteq> [] \<Longrightarrow> js_join (w # ws) sep = w @ sep @ js_join ws sep"
  by (cases ws) auto

lemma js_join_append:
  "xs \<noteq> [] \<Longrightarrow> ys \<noteq> [] \<Longrightarrow> js_join (xs @ ys) sep = js_join xs sep @ sep @ js_join ys sep"
proof (induction xs)
  case Nil then show ?case by simp
next
  case (Cons x xs)
  show ?case
  proof (cases "xs = []")
    case True
    with Cons.prems show ?thesis by (simp add: js_join_Cons)
  next
    case False
    with Cons show ?thesis by (simp add: js_join_Cons)
  qed
qed

lemma join_split_from: "js_join (split_from sep w s) [sep] = w @ s"
  by (induction s arbitrary: w) (auto simp: js_join_Cons split_from_ne)

lemma join_split: "js_join (js_split s sep) [sep] = s"
  by (simp add: js_split_def join_split_from)

lemma split_from_free:
  "sep \<notin> set w \<Longrightarrow> p \<in> set (split_from sep w s) \<Longrightarrow> sep \<notin> set p"
proof (induction s arbitrary: w)
  case Nil then show ?case by simp
next
  case (Cons c cs)
  show ?case
  proof (cases "c = sep")
    case True
    with Cons.prems have "p = w \<or> p \<in> set (split_from sep [] cs)" by simp
    then show ?thesis using Cons.prems(1) Cons.IH[of "[]"] by auto
  next
    case False
    with Cons.prems have "p \<in> set (split_from sep (w @ [c]) cs)" by simp
    moreover from False Cons.prems(1) have "sep \<notin> set (w @ [c])" by auto
    ultimately show ?thesis by (rule Cons.IH[rotated])
  qed
qed

lemma split_from_prefix:
  "sep \<notin> set p \<Longrightarrow> split_from sep w (p @ s) = split_from sep (w @ p) s"
  by (induction p arbitrary: w) auto

lemma split_from_join:
  "ws \<noteq> [] \<Longrightarrow> \<forall>p \<in> set ws. sep \<notin> set p \<Longrightarrow>
   split_from sep w (js_join ws [sep]) = (w @ hd ws) # tl ws"
proof (induction ws arbitrary: w)
  case Nil then show ?case by simp
next
  case (Cons x xs)
  show ?case
  proof (cases "xs = []")
    case True
    with Cons.prems show ?thesis using split_from_prefix[of sep x w "[]"] by simp
  next
    case False
    with Cons show ?thesis
      using split_from_prefix[of sep x w "sep # js_join xs [sep]"]
      by (simp add: js_join_Cons)
  qed
qed

lemma split_join:
  "ws \<noteq> [] \<Longrightarrow> \<forall>p \<in> set ws. sep \<notin> set p \<Longrightarrow> js_split (js_join ws [sep]) sep = ws"
  by (simp add: js_split_def split_from_join)

lemma length_split_from: "length (split_from sep w s) = Suc (count_list s sep)"
  by (induction s arbitrary: w) auto



lemma chunk_loop_step:
  "i < length ws \<Longrightarrow>
   chunk_loop ws i acc =
     chunk_loop ws (i + chunkSize) (acc @ [js_join (js_slice ws i (i + chunkSize)) '' ''])"
  by (subst chunk_loop.simps) simp

lemma chunk_loop_stop: "\<not> i < length ws \<Longrightarrow> chunk_loop ws i acc = acc"
  by (subst chunk_loop.simps) simp

lemma js_slice_window: "js_slice ws i (i + n) = take n (drop i ws)"
  by (simp add: js_slice_def drop_take)

lemma js_slice_rest: "js_slice ws i (i + n) @ drop (i + n) ws = drop i ws"
proof -
  have "drop (i + n) ws = drop n (drop i ws)" by (simp add: add.commute)
  then show ?thesis by (simp only: js_slice_window append_take_drop_id)
qed

lemma js_slice_ne: "i < length ws \<Longrightarrow> js_slice ws i (i + chunkSize) \<noteq> []"
  by (simp add: js_slice_window chunkSize_def)

lemma ceil_step:
  assumes "i < L"
  shows "(L - i + 24) div 25 = Suc ((L - (i + 25) + 24) div (25::nat))"
proof (cases "i + 25 \<le> L")
  case True
  then have "L - i + 24 = (L - (i + 25) + 24) + 25" by simp
  then show ?thesis by (simp only: div_add_self2)
next
  case False
  then have z: "L - (i + 25) = 0" by simp
  from False assms have "25 \<le> L - i + 24" and "L - i + 24 < 50" by simp_all
  then have "(L - i + 24) div 25 = 1" by (intro div_nat_eqI) simp_all
  with z show ?thesis by simp
qed

lemma full_window_bound:
  assumes "Suc j < (L + 24) div (25::nat)"
  shows "25 * j + 25 \<le> L"
proof -
  from assms have "Suc (Suc j) \<le> (L + 24) div 25" by simp
  then have "Suc (Suc j) * 25 \<le> L + 24" by (simp only: less_eq_div_iff_mult_less_eq) 
  then show ?thesis by simp
qed
lemma chunk_loop_length:
  "length (chunk_loop ws i acc) = length acc + (length ws - i + (chunkSize - 1)) div chunkSize"
proof (induction ws i acc rule: chunk_loop.induct)
  case (1 words i chunks)
  show ?case
  proof (cases "i < length words")
    case True
    have "(length words - i + (chunkSize - 1)) div chunkSize
        = Suc ((length words - (i + chunkSize) + (chunkSize - 1)) div chunkSize)"
      using ceil_step[OF True] by (simp add: chunkSize_def)
    with True "1.IH" show ?thesis by (simp add: chunk_loop_step)
  next
    case False
    then show ?thesis by (simp add: chunk_loop_stop chunkSize_def)
  qed
qed

lemma chunk_loop_nth:
  "i = chunkSize * length acc \<Longrightarrow>
   (\<And>j. j < length acc \<Longrightarrow>
      acc ! j = js_join (js_slice ws (chunkSize * j) (chunkSize * j + chunkSize)) '' '') \<Longrightarrow>
   j < length (chunk_loop ws i acc) \<Longrightarrow>
   chunk_loop ws i acc ! j = js_join (js_slice ws (chunkSize * j) (chunkSize * j + chunkSize)) '' ''"
proof (induction ws i acc rule: chunk_loop.induct)
  case (1 words i chunks)
  show ?case
  proof (cases "i < length words")
    case True
    let ?acc = "chunks @ [js_join (js_slice words i (i + chunkSize)) '' '']"
    have a: "i + chunkSize = chunkSize * length ?acc" using "1.prems"(1) by simp
    have b: "?acc ! j = js_join (js_slice words (chunkSize * j) (chunkSize * j + chunkSize)) '' ''"
      if "j < length ?acc" for j
    proof (cases "j < length chunks")
      case True
      then show ?thesis using "1.prems"(2)[of j] by (simp add: nth_append)
    next
      case False
      with that have "j = length chunks" by simp
      then show ?thesis using "1.prems"(1) by (simp add: nth_append)
    qed
    have c: "j < length (chunk_loop words (i + chunkSize) ?acc)"
      using "1.prems"(3) True by (simp add: chunk_loop_step)
    show ?thesis using "1.IH"[OF True a b c] True by (simp add: chunk_loop_step)
  next
    case False
    then show ?thesis using "1.prems" by (simp add: chunk_loop_stop)
  qed
qed

lemma chunk_loop_cover:
  "(\<And>p. p \<in> set ws \<Longrightarrow> CHR '' '' \<notin> set p) \<Longrightarrow>
   concat (map (\<lambda>ch. js_split ch CHR '' '') (chunk_loop ws i acc))
     = concat (map (\<lambda>ch. js_split ch CHR '' '') acc) @ drop i ws"
proof (induction ws i acc rule: chunk_loop.induct)
  case (1 words i chunks)
  show ?case
  proof (cases "i < length words")
    case True
    let ?sl = "js_slice words i (i + chunkSize)"
    have ne: "?sl \<noteq> []" using True by (rule js_slice_ne)
    have free: "\<forall>p \<in> set ?sl. CHR '' '' \<notin> set p"
      using "1.prems" by (auto simp: js_slice_window dest!: in_set_takeD in_set_dropD)
    have sp: "js_split (js_join ?sl '' '') CHR '' '' = ?sl"
      using split_join[OF ne free] by simp
    have dr: "?sl @ drop (i + chunkSize) words = drop i words"
      by (rule js_slice_rest)
    show ?thesis
      using "1.IH"[OF True "1.prems"] True sp dr by (simp add: chunk_loop_step)
  next
    case False
    then show ?thesis by (simp add: chunk_loop_stop)
  qed
qed

lemma chunk_loop_join:
  "js_join (chunk_loop ws i acc) '' '' =
     (if i < length ws
      then (if acc = [] then js_join (drop i ws) '' ''
            else js_join acc '' '' @ '' '' @ js_join (drop i ws) '' '')
      else js_join acc '' '')"
proof (induction ws i acc rule: chunk_loop.induct)
  case (1 words i chunks)
  show ?case
  proof (cases "i < length words")
    case True
    let ?sl = "js_slice words i (i + chunkSize)"
    let ?x = "js_join ?sl '' ''"
    have ne: "?sl \<noteq> []" using True by (rule js_slice_ne)
    have dr: "?sl @ drop (i + chunkSize) words = drop i words"
      by (rule js_slice_rest)
    have acc: "js_join (chunks @ [?x]) '' '' =
        (if chunks = [] then ?x else js_join chunks '' '' @ '' '' @ ?x)"
      using js_join_append[of chunks "[?x]" "'' ''"] by simp
    have rest: "js_join (drop i words) '' '' =
        (if i + chunkSize < length words
         then ?x @ '' '' @ js_join (drop (i + chunkSize) words) '' '' else ?x)"
    proof (cases "i + chunkSize < length words")
      case True
      then have "drop (i + chunkSize) words \<noteq> []" by simp
      from js_join_append[OF ne this, of "'' ''"] dr True show ?thesis by simp
    next
      case False
      then have "drop (i + chunkSize) words = []" by simp
      with dr False show ?thesis by simp
    qed
    show ?thesis
      using "1.IH"[OF True] True acc rest by (simp add: chunk_loop_step)
  next
    case False
    then show ?thesis by (simp add: chunk_loop_stop)
  qed
qed


lemma js_split_ne: "js_split s sep \<noteq> []"
  by (simp add: js_split_def split_from_ne)

lemma js_split_free: "p \<in> set (js_split s sep) \<Longrightarrow> sep \<notin> set p"
  unfolding js_split_def by (rule split_from_free[of sep "[]"]) simp_all

lemma compute_chunks_length:
  "length (compute_chunks s) = (length (js_split s CHR '' '') + (chunkSize - 1)) div chunkSize"
  by (simp add: compute_chunks_def chunk_loop_length)

lemma compute_chunks_nth:
  "j < length (compute_chunks s) \<Longrightarrow>
   compute_chunks s ! j =
     js_join (js_slice (js_split s CHR '' '') (chunkSize * j) (chunkSize * j + chunkSize)) '' ''"
  unfolding compute_chunks_def by (rule chunk_loop_nth) simp_all

lemma full_window_words:
  assumes "Suc j < length (compute_chunks s)"
  shows "js_split (compute_chunks s ! j) CHR '' '' =
           js_slice (js_split s CHR '' '') (chunkSize * j) (chunkSize * j + chunkSize)"
    and "length (js_split (compute_chunks s ! j) CHR '' '') = chunkSize"
proof -
  let ?ws = "js_split s CHR '' ''"
  let ?sl = "js_slice ?ws (chunkSize * j) (chunkSize * j + chunkSize)"
  from assms have b: "chunkSize * j + chunkSize \<le> length ?ws"
    using full_window_bound[of j "length ?ws"] by (simp add: compute_chunks_length chunkSize_def)
  then have len: "length ?sl = chunkSize" by (simp add: js_slice_window)
  then have ne: "?sl \<noteq> []" by (auto simp: chunkSize_def)
  have free: "\<forall>p \<in> set ?sl. CHR '' '' \<notin> set p"
    by (auto simp: js_slice_window js_split_free dest!: in_set_takeD in_set_dropD)
  from assms have "compute_chunks s ! j = js_join ?sl '' ''"
    by (simp add: compute_chunks_nth)
  then show "js_split (compute_chunks s ! j) CHR '' '' = ?sl"
    using split_join[OF ne free] by simp
  with len show "length (js_split (compute_chunks s ! j) CHR '' '') = chunkSize" by simp
qed

section \<open>Recognition updates\<close>

lemma onresult_loop_closed:
  "onresult_loop event i (it, ft) =
     (it @ concat (map (\<lambda>r. transcript (first_alternative r))
                     (filter (\<lambda>r. \<not> isFinal r) (drop i (results event)))),
      ft @ concat (map (\<lambda>r. transcript (first_alternative r) @ '' '')
                     (filter isFinal (drop i (results event)))))"
proof (induction event i "(it, ft)" arbitrary: it ft rule: onresult_loop.induct)
  case (1 event i interimTranscript finalTranscript)
  show ?case
  proof (cases "i < length (results event)")
    case True
    then have d: "drop i (results event) = results event ! i # drop (Suc i) (results event)"
      by (simp add: Cons_nth_drop_Suc)
    show ?thesis
    proof (cases "isFinal (results event ! i)")
      case f: True
      show ?thesis
        using True f d "1.hyps"(1)[OF True refl refl f]
        by (subst onresult_loop.simps) (simp add: Let_def)
    next
      case f: False
      show ?thesis
        using True f d "1.hyps"(2)[OF True refl refl f]
        by (subst onresult_loop.simps) (simp add: Let_def)
    qed
  next
    case False
    then show ?thesis by (subst onresult_loop.simps) simp
  qed
qed

lemma text_state_onresult:
  "text_state (onresult event s) =
     text_state s @ concat (map (\<lambda>r. transcript (first_alternative r) @ '' '')
                              (filter isFinal (delivered event)))"
  by (simp add: onresult_def onresult_loop_closed delivered_def truthy_def)

lemma interimResult_onresult:
  "interimResult (onresult event s) =
     concat (map (\<lambda>r. transcript (first_alternative r))
               (filter (\<lambda>r. \<not> isFinal r) (delivered event)))"
  by (simp add: onresult_def onresult_loop_closed delivered_def)

lemma text_state_updates:
  "text_state (foldl (\<lambda>s event. onresult event s) s events) =
     text_state s @ concat (map (\<lambda>event. concat (map (\<lambda>r. transcript (first_alternative r) @ '' '')
                              (filter isFinal (delivered event)))) events)"
  by (induction events arbitrary: s) (simp_all add: text_state_onresult)

lemma text_state_startListening: "text_state (startListening s) = []"
  by (simp add: startListening_def initializeSpeechRecognition_def Let_def)

lemma interimResult_startListening: "interimResult (startListening s) = []"
  by (simp add: startListening_def initializeSpeechRecognition_def Let_def)

lemma interimResult_updates:
  "interimResult (foldl (\<lambda>s event. onresult event s) s events) =
     (if events = [] then interimResult s
      else concat (map (\<lambda>r. transcript (first_alternative r))
                     (filter (\<lambda>r. \<not> isFinal r) (delivered (last events)))))"
  by (induction events rule: rev_induct) (simp_all add: interimResult_onresult)

section \<open>Playback and generation\<close>


lemma compute_chunks_empty: "compute_chunks [] = [[]]"
  by (simp add: compute_chunks_def js_split_def chunk_loop_step chunk_loop_stop
        js_slice_def chunkSize_def)















lemma sent_chunkAndSpeak: "sent (chunkAndSpeak t s) = sent s"
  by (simp add: chunkAndSpeak_def speakChunk_def Let_def)

lemma sent_generateAIResponse_answer: "sent (generateAIResponse_answer answer s) = sent s"
  by (simp add: generateAIResponse_answer_def generateContent_answer_def sent_chunkAndSpeak
        Let_def split: sum.splits thrown.splits)

section \<open>The chunk sequence\<close>

text \<open>
  Claim C1, as the code has it. \<^verbatim>\<open>chunkAndSpeak\<close> splits at every single space character,
  so the words of \<open>s\<close> are its pieces between spaces, empty pieces included, and there is
  one more of them than there are spaces. With \<open>w\<close> the number of these pieces, the
  chunk sequence has \<open>\<lceil>w / 25\<rceil>\<close> chunks; chunk \<open>j\<close> is the pieces \<open>25 j\<close> to \<open>25 j + 24\<close>
  joined by single spaces; every chunk but the last holds exactly 25 pieces; and the
  pieces of the chunks, in order, are the pieces of \<open>s\<close>, none left out, repeated or
  moved.
\<close>

theorem compute_chunks_windows:
  "chunkSize = 25 \<and>
   length (js_split s CHR '' '') = Suc (count_list s CHR '' '') \<and>
   length (compute_chunks s) = (length (js_split s CHR '' '') + 24) div 25 \<and>
   (\<forall>j. j < length (compute_chunks s) \<longrightarrow>
        compute_chunks s ! j =
          js_join (js_slice (js_split s CHR '' '') (25 * j) (25 * j + 25)) '' '') \<and>
   (\<forall>j. Suc j < length (compute_chunks s) \<longrightarrow>
        length (js_split (compute_chunks s ! j) CHR '' '') = 25) \<and>
   concat (map (\<lambda>chunk. js_split chunk CHR '' '') (compute_chunks s)) = js_split s CHR '' ''"
proof -
  have c: "chunkSize = 25" by (simp add: chunkSize_def)
  have w: "length (js_split s CHR '' '') = Suc (count_list s CHR '' '')"
    by (simp add: js_split_def length_split_from)
  have n: "length (compute_chunks s) = (length (js_split s CHR '' '') + 24) div 25"
    using compute_chunks_length[of s] by (simp add: c)
  have nth: "\<forall>j. j < length (compute_chunks s) \<longrightarrow>
        compute_chunks s ! j =
          js_join (js_slice (js_split s CHR '' '') (25 * j) (25 * j + 25)) '' ''"
    using compute_chunks_nth[of _ s] by (simp add: c)
  have full: "\<forall>j. Suc j < length (compute_chunks s) \<longrightarrow>
        length (js_split (compute_chunks s ! j) CHR '' '') = 25"
    using full_window_words(2)[of _ s] by (simp add: c)
  have cover: "concat (map (\<lambda>chunk. js_split chunk CHR '' '') (compute_chunks s))
      = js_split s CHR '' ''"
    unfolding compute_chunks_def using chunk_loop_cover[of "js_split s CHR '' ''" 0 "[]"]
    by (simp add: js_split_free)
  from c w n nth full cover show ?thesis by blast
qed

text \<open>The theorem at a text of 26 words: two chunks, the first of 25 words.\<close>

theorem compute_chunks_windows_witness:
  "Suc 0 < length (compute_chunks ''a b c d e f g h i j k l m n o p q r s t u v w x y z'') \<and>
   length (js_split
      (compute_chunks ''a b c d e f g h i j k l m n o p q r s t u v w x y z'' ! 0) CHR '' '') = 25 \<and>
   compute_chunks ''a b c d e f g h i j k l m n o p q r s t u v w x y z'' ! 0 =
     ''a b c d e f g h i j k l m n o p q r s t u v w x y''"
proof -
  let ?s = "''a b c d e f g h i j k l m n o p q r s t u v w x y z''"
  have h: "Suc 0 < length (compute_chunks ?s)" by code_simp
  have v: "js_join (js_slice (js_split ?s CHR '' '') (25 * 0) (25 * 0 + 25)) '' '' =
      ''a b c d e f g h i j k l m n o p q r s t u v w x y''" by code_simp
  from compute_chunks_windows[of ?s] h v show ?thesis by auto
qed

text \<open>
  Claim C1 as stated, with the words of a string being its maximal runs without white
  space: a text of 26 words, two of them separated by a line break, should give two
  chunks, the first of 25 words. The code splits at spaces only, finds 25 pieces and
  computes one chunk that holds all 26 words.
\<close>

theorem chunk_count_counterexample:
  "length (whitespace_words ''a b c d e f g h i j k l m\<newline>n o p q r s t u v w x y z'') = 26 \<and>
   compute_chunks ''a b c d e f g h i j k l m\<newline>n o p q r s t u v w x y z'' =
     [''a b c d e f g h i j k l m\<newline>n o p q r s t u v w x y z''] \<and>
   length (compute_chunks ''a b c d e f g h i j k l m\<newline>n o p q r s t u v w x y z'') \<noteq>
     (length (whitespace_words ''a b c d e f g h i j k l m\<newline>n o p q r s t u v w x y z'') + 24) div 25"
  by code_simp

text \<open>
  Claim C10: the chunks of \<open>s\<close>, joined by single spaces, are \<open>s\<close> again, for every string \<open>s\<close>.
\<close>

theorem join_compute_chunks: "js_join (compute_chunks s) '' '' = s"
proof -
  have "js_split s CHR '' '' \<noteq> []" by (rule js_split_ne)
  then show ?thesis
    using join_split[of s "CHR '' ''"] by (simp add: compute_chunks_def chunk_loop_join)
qed

text \<open>
  Claim C2, as the code has it. The empty string splits into one empty word, so
  \<^verbatim>\<open>chunkAndSpeak("")\<close> computes one chunk, the empty string. When the voice list is not
  empty, it submits one utterance with the empty text and sets \<open>isSpeaking\<close> to true; when
  the voice list is empty, it submits nothing, leaves \<open>isSpeaking\<close> as it is and installs
  the \<^verbatim>\<open>onvoiceschanged\<close> handler holding that chunk.
\<close>

theorem chunkAndSpeak_empty:
  "compute_chunks [] = [[]] \<and>
   (voices s \<noteq> [] \<longrightarrow>
      submitted (chunkAndSpeak [] s) = submitted s @ [[]] \<and>
      map utterance_text (queue (chunkAndSpeak [] s)) = map utterance_text (queue s) @ [[]] \<and>
      isSpeaking (chunkAndSpeak [] s)) \<and>
   (voices s = [] \<longrightarrow>
      submitted (chunkAndSpeak [] s) = submitted s \<and>
      queue (chunkAndSpeak [] s) = queue s \<and>
      isSpeaking (chunkAndSpeak [] s) = isSpeaking s \<and>
      onvoiceschanged (chunkAndSpeak [] s) = Some [[]])"
  by (simp add: compute_chunks_empty chunkAndSpeak_def speakChunk_def Let_def)

text \<open>The theorem on a freshly mounted component, with one voice and with none.\<close>

theorem chunkAndSpeak_empty_witness:
  "voices (initial_state True [''v'']) \<noteq> [] \<and>
   submitted (chunkAndSpeak [] (initial_state True [''v''])) = [[]] \<and>
   isSpeaking (chunkAndSpeak [] (initial_state True [''v''])) \<and>
   voices (initial_state True []) = [] \<and>
   submitted (chunkAndSpeak [] (initial_state True [])) = [] \<and>
   \<not> isSpeaking (chunkAndSpeak [] (initial_state True [])) \<and>
   onvoiceschanged (chunkAndSpeak [] (initial_state True [])) = Some [[]]"
proof -
  have a: "voices (initial_state True [''v'']) \<noteq> []"
    and b: "voices (initial_state True []) = []"
    and c: "submitted (initial_state True [''v'']) = []"
    and d: "submitted (initial_state True []) = []"
    and e: "\<not> isSpeaking (initial_state True [])"
    by (simp_all add: initial_state_def)
  from chunkAndSpeak_empty[of "initial_state True [''v'']"]
       chunkAndSpeak_empty[of "initial_state True []"] a b c d e
  show ?thesis by simp
qed

text \<open>
  Claim C2 as stated: on a freshly mounted component with a voice loaded,
  \<^verbatim>\<open>chunkAndSpeak("")\<close> computes one chunk, not zero, submits one utterance, and leaves
  \<open>isSpeaking\<close> true.
\<close>

theorem empty_input_counterexample:
  "compute_chunks '''' = [''''] \<and>
   submitted (chunkAndSpeak '''' (initial_state True [''v''])) = [''''] \<and>
   isSpeaking (chunkAndSpeak '''' (initial_state True [''v'']))"
  by (simp add: compute_chunks_def js_split_def chunk_loop_step chunk_loop_stop
        js_slice_def chunkSize_def chunkAndSpeak_def speakChunk_def initial_state_def Let_def)

section \<open>The transcript of a session\<close>

text \<open>
  Claim C3: after a recognition session (\<^verbatim>\<open>startListening\<close>, the start notification, any
  sequence of updates in delivery order, the end notification) the finalized transcript
  is the concatenation, in delivery order, of the fragments marked final that the
  updates delivered, each followed by one space, and of nothing else.
\<close>

theorem finalized_transcript_after_session:
  "text_state (recognition_session events s) =
     concat (map (\<lambda>event. concat (map (\<lambda>r. transcript (first_alternative r) @ '' '')
                                     (filter isFinal (delivered event)))) events)"
  by (simp add: recognition_session_def onend_def onstart_def text_state_updates
        text_state_startListening)

text \<open>
  Claim C4, as the code has it. The end notification sets \<open>isListening\<close> to false and
  leaves the interim text as it is. After a session the interim text is therefore what
  the last update made it, the concatenation of the fragments of that update that are
  not final; it is empty when there was no update or when the last update delivered
  final fragments only.
\<close>

theorem interim_text_after_session:
  "interimResult (onend s) = interimResult s \<and> \<not> isListening (onend s) \<and>
   interimResult (recognition_session events s0) =
     (if events = [] then []
      else concat (map (\<lambda>r. transcript (first_alternative r))
                     (filter (\<lambda>r. \<not> isFinal r) (delivered (last events)))))"
  by (simp add: recognition_session_def onend_def onstart_def interimResult_updates
        interimResult_startListening)

text \<open>
  Claim C4 as stated: a session whose only update is the interim fragment
  \<^verbatim>\<open>hello wor\<close> ends with that text as interim text, not with the empty string.
\<close>

theorem interim_text_counterexample:
  "interimResult (recognition_session
      [\<lparr>resultIndex = 0,
        results = [\<lparr>isFinal = False, first_alternative = \<lparr>transcript = ''hello wor''\<rparr>\<rparr>]\<rparr>]
      (initial_state True [])) = ''hello wor''"
  by (simp add: recognition_session_def onend_def onstart_def onresult_def
        onresult_loop.simps startListening_def initial_state_def truthy_def Let_def)

section \<open>Stopping a playback\<close>




text \<open>
  On a platform whose \<^verbatim>\<open>cancel()\<close> delivers the end notification, the \<^verbatim>\<open>onend\<close> handler of
  the stopped utterance sets its timer, and the timer submits the next chunk.
\<close>

lemma stop_on_platform_delivering_end:
  "submitted (playback_run [TimerFires]
     (stopSpeaking True
        (playback_run [] (start_playback ''a b c d e f g h i j k l m n o p q r s t u v w x y z'' [] (initial_state True [''v''])))))
     = [''a b c d e f g h i j k l m n o p q r s t u v w x y'', ''z'']"
proof -
  have c: "compute_chunks ''a b c d e f g h i j k l m n o p q r s t u v w x y z'' = [''a b c d e f g h i j k l m n o p q r s t u v w x y'', ''z'']"
    by code_simp
  show ?thesis
    by (simp add: playback_run_def start_playback_def chunkAndSpeak_def c
          speakChunk_def stopSpeaking_def cancel_def timer_fires_def
          initial_state_def Let_def)
qed

section \<open>Generation\<close>

text \<open>
  Claim C6: when the request of a generation attempt fails, what follows leaves the
  finalized transcript and the reply text as they were, speaks nothing, and shows the
  user one failure message; the whole attempt does the same.
\<close>

theorem generation_failure_handling:
  "text_state (generateAIResponse_answer (Inl err) s) = text_state s \<and>
   response (generateAIResponse_answer (Inl err) s) = response s \<and>
   submitted (generateAIResponse_answer (Inl err) s) = submitted s \<and>
   notifications (generateAIResponse_answer (Inl err) s) =
     notifications s @ [''Failed to generate response. Please try again.''] \<and>
   text_state (generateAIResponse model (Inl err) s) = text_state s \<and>
   response (generateAIResponse model (Inl err) s) = response s \<and>
   notifications (generateAIResponse model (Inl err) s) =
     notifications s @
       (if truthy (js_trim (text_state s))
        then [''Failed to generate response. Please try again.''] else [])"
  by (simp add: generateAIResponse_def generateAIResponse_answer_def generateContent_answer_def
        generateContent_request_def Let_def)

text \<open>
  Claim C7: the effect sends a request exactly when \<open>isListening\<close> is false and the
  finalized transcript is not empty after trimming, and the request carries that
  transcript; the handlers of the recognition session send none.
\<close>

theorem generation_only_when_not_listening:
  "sent (generation_effect model answer s) =
     (if \<not> isListening s \<and> truthy (js_trim (text_state s))
      then sent s @ [(model, text_state s @ brevity_instruction)] else sent s) \<and>
   (sent (generation_effect model answer s) \<noteq> sent s \<longleftrightarrow>
      \<not> isListening s \<and> js_trim (text_state s) \<noteq> []) \<and>
   sent (startListening s) = sent s \<and> sent (onstart s) = sent s \<and>
   sent (onresult event s) = sent s \<and> sent (onend s) = sent s \<and> sent (onerror s) = sent s"
proof -
  have a: "sent (generation_effect model answer s) =
     (if \<not> isListening s \<and> truthy (js_trim (text_state s))
      then sent s @ [(model, text_state s @ brevity_instruction)] else sent s)"
    by (simp add: generation_effect_def generateAIResponse_def sent_generateAIResponse_answer
          generateContent_request_def)
  have b: "sent (startListening s) = sent s" "sent (onstart s) = sent s"
    "sent (onresult event s) = sent s" "sent (onend s) = sent s" "sent (onerror s) = sent s"
    by (simp_all add: startListening_def initializeSpeechRecognition_def Let_def onstart_def
          onresult_def onend_def onerror_def split: prod.splits)
  from a b show ?thesis by (simp add: truthy_def)
qed

text \<open>
  Claim C8: for every prompt \<open>p\<close>, the string sent to the capability is \<open>p\<close> followed by
  the one fixed brevity instruction, whatever the state and whatever the answer.
\<close>

theorem prompt_sent_with_brevity_instruction:
  "sent (generateContent_request model p s) = sent s @ [(model, p @ brevity_instruction)] \<and>
   sent (snd (generateContent model p answer s)) = sent s @ [(model, p @ brevity_instruction)]"
  by (simp add: generateContent_def generateContent_request_def generateContent_answer_def
        Let_def split: sum.splits thrown.splits)

text \<open>
  Claim C9: loading the module without a credential (none, or the empty string) throws;
  with a credential it yields the model, and \<^verbatim>\<open>generateContent\<close> on that model fails only
  with what the request threw, never for want of a credential.
\<close>

theorem credential_checked_at_initialization:
  "module_init None = Inl (Error ''Missing Gemini API Key'') \<and>
   module_init (Some []) = Inl (Error ''Missing Gemini API Key'') \<and>
   (k \<noteq> [] \<longrightarrow> module_init (Some k) = Inr \<lparr>apiKey = k, modelName = ''gemini-1.5-flash''\<rparr>) \<and>
   (module_init API_KEY = Inr model \<longrightarrow>
      fst (generateContent model p (Inr generatedText) s) = Inr generatedText \<and>
      (fst (generateContent model p answer s) = Inl e \<longrightarrow>
         answer = Inl (ThrownError e) \<or>
         (answer = Inl ThrownOther \<and> e = Error ''An unknown error occurred'')))"
  by (auto simp: module_init_def truthy_def generateContent_def generateContent_answer_def
        Let_def split: sum.splits thrown.splits)

text \<open>The theorem for the credential \<^verbatim>\<open>key\<close>.\<close>

theorem credential_checked_at_initialization_witness:
  "''key'' \<noteq> [] \<and>
   module_init (Some ''key'') = Inr \<lparr>apiKey = ''key'', modelName = ''gemini-1.5-flash''\<rparr> \<and>
   fst (generateContent \<lparr>apiKey = ''key'', modelName = ''gemini-1.5-flash''\<rparr> ''hello world ''
          (Inr ''Hi there!'') (initial_state True [])) = Inr ''Hi there!'' \<and>
   fst (generateContent \<lparr>apiKey = ''key'', modelName = ''gemini-1.5-flash''\<rparr> ''hello world ''
          (Inl ThrownOther) (initial_state True [])) = Inl (Error ''An unknown error occurred'')"
proof -
  let ?m = "\<lparr>apiKey = ''key'', modelName = ''gemini-1.5-flash''\<rparr>"
  have k: "''key'' \<noteq> []" by simp
  from credential_checked_at_initialization[of "''key''"] k
  have i: "module_init (Some ''key'') = Inr ?m" by blast
  have f: "fst (generateContent ?m ''hello world '' (Inl ThrownOther) (initial_state True []))
      = Inl (Error ''An unknown error occurred'')"
    by (simp add: generateContent_def generateContent_answer_def Let_def)
  from credential_checked_at_initialization[of _ "Some ''key''" ?m "''hello world ''"
      "''Hi there!''" "initial_state True []"] i
  have g: "fst (generateContent ?m ''hello world '' (Inr ''Hi there!'') (initial_state True []))
      = Inr ''Hi there!''" by blast
  from k i f g show ?thesis by blast
qed

end
